theory Spec2Isabelle
  imports Complex_Main
begin

section \<open>The iambic keyer state machine of docs/state_machine.py\<close>

text \<open>
  The embedding follows \<^verbatim>\<open>docs/state_machine.py\<close> function by function. Python floats
  (durations, elapsed times, percentages, \<^verbatim>\<open>dt_ms\<close>) are read as real numbers, the
  integer \<^verbatim>\<open>wpm\<close> as an \<^typ>\<open>int\<close>. The only exception the code can raise on inputs of
  these types is the division by zero of \<^verbatim>\<open>1200.0 / self.wpm\<close>; it is the \<open>Inl\<close> branch of
  every function that can reach it. Mutation of \<^verbatim>\<open>self\<close> is explicit state passing: a
  method takes the runtime record and returns the updated one.

  Names are the source's, apart from the leading underscore of the private methods and the
  enum members whose names would clash: \<^verbatim>\<open>IambicMode.A/B\<close> are \<open>MODE_A\<close>/\<open>MODE_B\<close>,
  the members of \<^verbatim>\<open>MemoryMode\<close> carry the prefix \<open>MEM_\<close>. The header of
  \<^verbatim>\<open>class SqueezeMode\<close> lacks its closing parenthesis in the source (line 25); it is read
  as the enumeration of LIVE and SNAPSHOT that it declares.
\<close>

subsection \<open>Enumerations and configuration\<close>

datatype IambicMode = MODE_A | MODE_B

datatype MemoryMode = MEM_NONE | MEM_DOT_ONLY | MEM_DAH_ONLY | MEM_DOT_AND_DAH

datatype SqueezeMode = LIVE | SNAPSHOT

datatype Element = DIT | DAH

datatype State = IDLE | SEND_DIT | SEND_DAH | INTER_ELEMENT_GAP

datatype PaddleCombo = NONE | DIT_ONLY | DAH_ONLY | BOTH

datatype error = ZeroDivisionError

record KeyerConfig =
  wpm :: int
  iambic_mode :: IambicMode
  memory_mode :: MemoryMode
  squeeze_mode :: SqueezeMode
  mem_block_start_pct :: real
  mem_block_end_pct :: real

text \<open>\<^verbatim>\<open>KeyerConfig.__init__\<close> stores its six arguments and checks none of them.\<close>

definition KeyerConfig_init ::
  "int \<Rightarrow> IambicMode \<Rightarrow> MemoryMode \<Rightarrow> SqueezeMode \<Rightarrow> real \<Rightarrow> real \<Rightarrow> error + KeyerConfig" where
  "KeyerConfig_init w im mm sm sp ep =
     Inr \<lparr>wpm = w, iambic_mode = im, memory_mode = mm, squeeze_mode = sm,
          mem_block_start_pct = sp, mem_block_end_pct = ep\<rparr>"

definition dit_duration_ms :: "KeyerConfig \<Rightarrow> error + real" where
  "dit_duration_ms c =
     (if wpm c = 0 then Inl ZeroDivisionError else Inr (1200 / real_of_int (wpm c)))"

definition dah_duration_ms :: "KeyerConfig \<Rightarrow> error + real" where
  "dah_duration_ms c =
     (case dit_duration_ms c of Inl e \<Rightarrow> Inl e | Inr d \<Rightarrow> Inr (3 * d))"

definition gap_duration_ms :: "KeyerConfig \<Rightarrow> error + real" where
  "gap_duration_ms c = dit_duration_ms c"

subsection \<open>The runtime\<close>

record KeyerRuntime =
  cfg :: KeyerConfig
  state :: State
  current_element :: "Element option"
  current_element_total_ms :: real
  current_element_elapsed_ms :: real
  gap_total_ms :: real
  gap_elapsed_ms :: real
  element_progress_pct :: real
  queue :: "Element list"
  dot_requested :: bool
  dah_requested :: bool
  dit_pressed :: bool
  dah_pressed :: bool
  squeeze_seen_this_element :: bool
  last_valid_combo :: PaddleCombo

definition KeyerRuntime_init :: "KeyerConfig \<Rightarrow> KeyerRuntime" where
  "KeyerRuntime_init c =
     \<lparr>cfg = c, state = IDLE, current_element = None,
      current_element_total_ms = 0, current_element_elapsed_ms = 0,
      gap_total_ms = 0, gap_elapsed_ms = 0, element_progress_pct = 0,
      queue = [], dot_requested = False, dah_requested = False,
      dit_pressed = False, dah_pressed = False,
      squeeze_seen_this_element = False, last_valid_combo = NONE\<rparr>"

definition get_combo_now :: "KeyerRuntime \<Rightarrow> PaddleCombo" where
  "get_combo_now r =
     (if dit_pressed r \<and> dah_pressed r then BOTH
      else if dit_pressed r \<and> \<not> dah_pressed r then DIT_ONLY
      else if dah_pressed r \<and> \<not> dit_pressed r then DAH_ONLY
      else NONE)"

definition update_paddles :: "KeyerRuntime \<Rightarrow> bool \<Rightarrow> bool \<Rightarrow> KeyerRuntime" where
  "update_paddles r dit dah =
     (let prev_combo = get_combo_now r;
          r1 = r\<lparr>dit_pressed := dit, dah_pressed := dah\<rparr>;
          new_combo = get_combo_now r1
      in if squeeze_mode (cfg r1) = SNAPSHOT then
           (if prev_combo \<noteq> new_combo then r1\<lparr>last_valid_combo := prev_combo\<rparr> else r1)
         else r1\<lparr>last_valid_combo := new_combo\<rparr>)"

text \<open>
  \<^verbatim>\<open>_start_element\<close>: the duration is computed (and may raise) after \<^verbatim>\<open>current_element\<close>
  is assigned; a raise ends the run, so the half-updated runtime is not observed.
\<close>

definition start_element :: "KeyerRuntime \<Rightarrow> Element \<Rightarrow> error + KeyerRuntime" where
  "start_element r element =
     (let r1 = r\<lparr>current_element := Some element\<rparr> in
      case (if element = DIT
            then (case dit_duration_ms (cfg r1) of Inl e \<Rightarrow> Inl e
                  | Inr d \<Rightarrow> Inr (r1\<lparr>current_element_total_ms := d, state := SEND_DIT\<rparr>))
            else (case dah_duration_ms (cfg r1) of Inl e \<Rightarrow> Inl e
                  | Inr d \<Rightarrow> Inr (r1\<lparr>current_element_total_ms := d, state := SEND_DAH\<rparr>)))
      of Inl e \<Rightarrow> Inl e
       | Inr r2 \<Rightarrow> Inr (r2\<lparr>current_element_elapsed_ms := 0, element_progress_pct := 0,
                            squeeze_seen_this_element := False\<rparr>))"

definition start_gap :: "KeyerRuntime \<Rightarrow> error + KeyerRuntime" where
  "start_gap r =
     (case gap_duration_ms (cfg r) of Inl e \<Rightarrow> Inl e
      | Inr d \<Rightarrow> Inr (r\<lparr>gap_total_ms := d, gap_elapsed_ms := 0, state := INTER_ELEMENT_GAP\<rparr>))"

definition check_memory_and_squeeze_during_element :: "KeyerRuntime \<Rightarrow> KeyerRuntime" where
  "check_memory_and_squeeze_during_element r =
     (let r1 = (if current_element_total_ms r > 0
                then r\<lparr>element_progress_pct :=
                         100 * current_element_elapsed_ms r / current_element_total_ms r\<rparr>
                else r\<lparr>element_progress_pct := 0\<rparr>);
          combo = get_combo_now r1;
          r2 = (if combo = BOTH then r1\<lparr>squeeze_seen_this_element := True\<rparr> else r1)
      in if memory_mode (cfg r2) = MEM_NONE then r2
         else
           (let left_ok = (element_progress_pct r2 \<ge> mem_block_start_pct (cfg r2));
                right_ok = (element_progress_pct r2 \<le> 100 - mem_block_end_pct (cfg r2));
                mem_window_ok = (left_ok \<and> right_ok)
            in if \<not> mem_window_ok then r2
               else
                 (let r3 = (if state r2 = SEND_DIT
                              \<and> (combo = DAH_ONLY \<or> combo = BOTH)
                              \<and> (memory_mode (cfg r2) = MEM_DAH_ONLY
                                   \<or> memory_mode (cfg r2) = MEM_DOT_AND_DAH)
                            then r2\<lparr>dah_requested := True\<rparr> else r2)
                  in if state r3 = SEND_DAH
                        \<and> (combo = DIT_ONLY \<or> combo = BOTH)
                        \<and> (memory_mode (cfg r3) = MEM_DOT_ONLY
                             \<or> memory_mode (cfg r3) = MEM_DOT_AND_DAH)
                     then r3\<lparr>dot_requested := True\<rparr> else r3)))"

text \<open>
  The local variable \<^verbatim>\<open>bonus_element\<close> of \<^verbatim>\<open>_finish_element_and_enter_gap\<close>, as it stands
  after the Mode B block (source lines 237 to 257). A \<^verbatim>\<open>current_element\<close> that is not
  \<^verbatim>\<open>Element.DIT\<close> (\<^verbatim>\<open>None\<close> included) takes the \<^verbatim>\<open>else\<close> branch.
\<close>

definition bonus_element :: "KeyerRuntime \<Rightarrow> Element option" where
  "bonus_element r =
     (if iambic_mode (cfg r) = MODE_B then
        (let ref_combo = (if squeeze_mode (cfg r) = LIVE then get_combo_now r
                          else last_valid_combo r)
         in if squeeze_seen_this_element r \<and> ref_combo \<noteq> BOTH
            then (if current_element r = Some DIT then Some DAH else Some DIT)
            else None)
      else None)"

definition finish_element_and_enter_gap :: "KeyerRuntime \<Rightarrow> error + KeyerRuntime" where
  "finish_element_and_enter_gap r =
     (let bonus = bonus_element r;
          r1 = (if dot_requested r
                then r\<lparr>queue := queue r @ [DIT], dot_requested := False\<rparr> else r);
          r2 = (if dah_requested r1
                then r1\<lparr>queue := queue r1 @ [DAH], dah_requested := False\<rparr> else r1);
          r3 = (case bonus of None \<Rightarrow> r2 | Some b \<Rightarrow> r2\<lparr>queue := queue r2 @ [b]\<rparr>)
      in start_gap r3)"

text \<open>
  \<^verbatim>\<open>tick\<close>. The last \<^verbatim>\<open>else\<close> of the source (the safety fallback) is kept, although the
  four tests before it cover every value of \<^typ>\<open>State\<close>.
\<close>

definition tick :: "KeyerRuntime \<Rightarrow> real \<Rightarrow> error + KeyerRuntime" where
  "tick r dt_ms =
     (if state r = IDLE then
        (let combo = get_combo_now r in
         if combo = DIT_ONLY then start_element r DIT
         else if combo = DAH_ONLY then start_element r DAH
         else if combo = BOTH then start_element r DIT
         else Inr r)
      else if state r = SEND_DIT \<or> state r = SEND_DAH then
        (let r1 = r\<lparr>current_element_elapsed_ms := current_element_elapsed_ms r + dt_ms\<rparr> in
         if current_element_elapsed_ms r1 < current_element_total_ms r1
         then Inr (check_memory_and_squeeze_during_element r1)
         else finish_element_and_enter_gap r1)
      else if state r = INTER_ELEMENT_GAP then
        (let r1 = r\<lparr>gap_elapsed_ms := gap_elapsed_ms r + dt_ms\<rparr> in
         if gap_elapsed_ms r1 < gap_total_ms r1 then Inr r1
         else
           (let (next_elem, r2) =
                  (case queue r1 of
                     e # q \<Rightarrow> (Some e, r1\<lparr>queue := q\<rparr>)
                   | [] \<Rightarrow>
                       (let combo = get_combo_now r1 in
                        (if combo = DIT_ONLY then Some DIT
                         else if combo = DAH_ONLY then Some DAH
                         else if combo = BOTH then
                           (if current_element r1 = Some DIT then Some DAH else Some DIT)
                         else None, r1)))
            in case next_elem of
                 Some e \<Rightarrow> start_element r2 e
               | None \<Rightarrow>
                   Inr (r2\<lparr>state := IDLE, current_element := None,
                           current_element_total_ms := 0, current_element_elapsed_ms := 0,
                           gap_total_ms := 0, gap_elapsed_ms := 0,
                           element_progress_pct := 0,
                           squeeze_seen_this_element := False, queue := []\<rparr>)))
      else
        Inr (r\<lparr>state := IDLE, queue := [], current_element := None,
                current_element_elapsed_ms := 0, current_element_total_ms := 0,
                gap_elapsed_ms := 0, gap_total_ms := 0,
                squeeze_seen_this_element := False, element_progress_pct := 0\<rparr>))"

subsection \<open>Call sequences\<close>

text \<open>
  The host drives the runtime by calls of \<^verbatim>\<open>tick\<close> and \<^verbatim>\<open>update_paddles\<close> in any order.
  A call sequence is a list of events; it stops at the first exception.
\<close>

datatype event = Tick real | Paddles bool bool

fun step :: "KeyerRuntime \<Rightarrow> event \<Rightarrow> error + KeyerRuntime" where
  "step r (Tick dt_ms) = tick r dt_ms"
| "step r (Paddles dit dah) = Inr (update_paddles r dit dah)"

fun run :: "KeyerRuntime \<Rightarrow> event list \<Rightarrow> error + KeyerRuntime" where
  "run r [] = Inr r"
| "run r (ev # evs) = (case step r ev of Inl e \<Rightarrow> Inl e | Inr r' \<Rightarrow> run r' evs)"

text \<open>The opposite element (DIT for DAH and DAH for DIT).\<close>

fun opposite :: "Element \<Rightarrow> Element" where
  "opposite DIT = DAH"
| "opposite DAH = DIT"

text \<open>An optional element as the list of elements it appends to the queue.\<close>

fun appended :: "Element option \<Rightarrow> Element list" where
  "appended None = []"
| "appended (Some e) = [e]"

subsection \<open>What holds of every runtime the host can reach\<close>

text \<open>
  The facts that every call of \<^verbatim>\<open>update_paddles\<close> and every returning call of
  \<^verbatim>\<open>tick\<close> preserve, starting from a fresh runtime of configuration \<open>c\<close>: at rest
  every transient field has its initial value; while an element is sent
  \<^verbatim>\<open>current_element\<close> is that element; an element or a gap has only been started with a
  nonzero \<^verbatim>\<open>wpm\<close>; no latch is pending at rest or in a gap, nor ever without memory;
  under LIVE \<^verbatim>\<open>last_valid_combo\<close> mirrors the paddles.
\<close>

definition keyer_inv :: "KeyerConfig \<Rightarrow> KeyerRuntime \<Rightarrow> bool" where
  "keyer_inv c r \<longleftrightarrow>
     cfg r = c \<and>
     (state r = IDLE \<longrightarrow>
        current_element r = None \<and> current_element_total_ms r = 0 \<and>
        current_element_elapsed_ms r = 0 \<and> gap_total_ms r = 0 \<and> gap_elapsed_ms r = 0 \<and>
        element_progress_pct r = 0 \<and> queue r = [] \<and> \<not> squeeze_seen_this_element r) \<and>
     (state r = SEND_DIT \<longrightarrow> current_element r = Some DIT) \<and>
     (state r = SEND_DAH \<longrightarrow> current_element r = Some DAH) \<and>
     (state r = INTER_ELEMENT_GAP \<longrightarrow> current_element r \<noteq> None) \<and>
     (state r \<noteq> IDLE \<longrightarrow> wpm c \<noteq> 0) \<and>
     (state r = IDLE \<or> state r = INTER_ELEMENT_GAP \<longrightarrow>
        \<not> dot_requested r \<and> \<not> dah_requested r) \<and>
     (memory_mode c = MEM_NONE \<longrightarrow> \<not> dot_requested r \<and> \<not> dah_requested r) \<and>
     (squeeze_mode c = LIVE \<longrightarrow> last_valid_combo r = get_combo_now r)"

subsection \<open>Example configurations and runtimes\<close>

text \<open>
  \<open>default_cfg\<close> is the configuration of the default arguments of
  \<^verbatim>\<open>KeyerConfig.__init__\<close>: 20 wpm (a dit of 60 ms), Mode B, full memory, LIVE squeeze
  evaluation, dead zones of 15 percent. The runtimes below are reached from a fresh runtime
  by the call sequences given with them in the lemmas named \<open>_reachable\<close>.
\<close>

definition default_cfg :: KeyerConfig where
  "default_cfg =
     \<lparr>wpm = 20, iambic_mode = MODE_B, memory_mode = MEM_DOT_AND_DAH, squeeze_mode = LIVE,
      mem_block_start_pct = 15, mem_block_end_pct = 15\<rparr>"

definition dit_dah_pressed :: KeyerRuntime where
  "dit_dah_pressed =
     \<lparr>cfg = default_cfg, state = SEND_DIT, current_element = Some DIT,
      current_element_total_ms = 60, current_element_elapsed_ms = 0,
      gap_total_ms = 0, gap_elapsed_ms = 0, element_progress_pct = 0,
      queue = [], dot_requested = False, dah_requested = False,
      dit_pressed = False, dah_pressed = True,
      squeeze_seen_this_element = False, last_valid_combo = DAH_ONLY\<rparr>"

definition squeezed_dit_released :: KeyerRuntime where
  "squeezed_dit_released =
     \<lparr>cfg = default_cfg, state = SEND_DIT, current_element = Some DIT,
      current_element_total_ms = 60, current_element_elapsed_ms = 30,
      gap_total_ms = 0, gap_elapsed_ms = 0, element_progress_pct = 50,
      queue = [], dot_requested = False, dah_requested = True,
      dit_pressed = False, dah_pressed = False,
      squeeze_seen_this_element = True, last_valid_combo = NONE\<rparr>"

definition squeezed_mode_A :: KeyerRuntime where
  "squeezed_mode_A = squeezed_dit_released\<lparr>cfg := default_cfg\<lparr>iambic_mode := MODE_A\<rparr>\<rparr>"

definition squeezed_no_memory :: KeyerRuntime where
  "squeezed_no_memory =
     squeezed_dit_released\<lparr>cfg := default_cfg\<lparr>memory_mode := MEM_NONE\<rparr>,
                            dah_requested := False\<rparr>"

definition gap_with_queue :: KeyerRuntime where
  "gap_with_queue =
     squeezed_dit_released\<lparr>current_element_elapsed_ms := 60, queue := [DAH, DAH],
        dot_requested := False, dah_requested := False,
        gap_total_ms := 60, gap_elapsed_ms := 0, state := INTER_ELEMENT_GAP\<rparr>"

definition gap_nothing_left :: KeyerRuntime where
  "gap_nothing_left =
     \<lparr>cfg = default_cfg, state = INTER_ELEMENT_GAP, current_element = Some DIT,
      current_element_total_ms = 60, current_element_elapsed_ms = 60,
      gap_total_ms = 60, gap_elapsed_ms = 0, element_progress_pct = 0,
      queue = [], dot_requested = False, dah_requested = False,
      dit_pressed = False, dah_pressed = False,
      squeeze_seen_this_element = False, last_valid_combo = NONE\<rparr>"

definition gap_nothing_left_snapshot :: KeyerRuntime where
  "gap_nothing_left_snapshot =
     gap_nothing_left\<lparr>cfg := default_cfg\<lparr>squeeze_mode := SNAPSHOT\<rparr>,
                       last_valid_combo := DIT_ONLY\<rparr>"

section \<open>Basic facts about the operations\<close>

text \<open>
  What each operation returns, case by case, and the preservation of \<open>keyer_inv\<close> along
  every call sequence.
\<close>

lemma start_element_Inr:
  "wpm (cfg r) \<noteq> 0 \<Longrightarrow>
   start_element r e =
     Inr (r\<lparr>current_element := Some e,
            current_element_total_ms :=
              (if e = DIT then 1200 / real_of_int (wpm (cfg r))
               else 3 * (1200 / real_of_int (wpm (cfg r)))),
            state := (if e = DIT then SEND_DIT else SEND_DAH),
            current_element_elapsed_ms := 0, element_progress_pct := 0,
            squeeze_seen_this_element := False\<rparr>)"
  by (simp add: start_element_def dit_duration_ms_def dah_duration_ms_def)

lemma start_element_Inl:
  "wpm (cfg r) = 0 \<Longrightarrow> start_element r e = Inl ZeroDivisionError"
  by (simp add: start_element_def dit_duration_ms_def dah_duration_ms_def Let_def)

lemma finish_element_Inr:
  "wpm (cfg r) \<noteq> 0 \<Longrightarrow>
   finish_element_and_enter_gap r =
     Inr (r\<lparr>queue := queue r @ (if dot_requested r then [DIT] else [])
                        @ (if dah_requested r then [DAH] else [])
                        @ appended (bonus_element r),
            dot_requested := False, dah_requested := False,
            gap_total_ms := 1200 / real_of_int (wpm (cfg r)), gap_elapsed_ms := 0,
            state := INTER_ELEMENT_GAP\<rparr>)"
  by (cases "bonus_element r")
     (simp_all add: finish_element_and_enter_gap_def start_gap_def gap_duration_ms_def
        dit_duration_ms_def Let_def)

lemma tick_IDLE:
  "state r = IDLE \<Longrightarrow>
   tick r dt =
     (if get_combo_now r = DIT_ONLY \<or> get_combo_now r = BOTH then start_element r DIT
      else if get_combo_now r = DAH_ONLY then start_element r DAH
      else Inr r)"
  by (simp add: tick_def Let_def)

lemma tick_SEND:
  "state r = SEND_DIT \<or> state r = SEND_DAH \<Longrightarrow>
   tick r dt =
     (if current_element_elapsed_ms r + dt < current_element_total_ms r
      then Inr (check_memory_and_squeeze_during_element
                  (r\<lparr>current_element_elapsed_ms := current_element_elapsed_ms r + dt\<rparr>))
      else finish_element_and_enter_gap
             (r\<lparr>current_element_elapsed_ms := current_element_elapsed_ms r + dt\<rparr>))"
  by (auto simp add: tick_def Let_def)

lemma tick_GAP_wait:
  "state r = INTER_ELEMENT_GAP \<Longrightarrow> gap_elapsed_ms r + dt < gap_total_ms r \<Longrightarrow>
   tick r dt = Inr (r\<lparr>gap_elapsed_ms := gap_elapsed_ms r + dt\<rparr>)"
  by (simp add: tick_def Let_def)

lemma tick_GAP_queue:
  "state r = INTER_ELEMENT_GAP \<Longrightarrow> \<not> gap_elapsed_ms r + dt < gap_total_ms r \<Longrightarrow>
   queue r = e # q \<Longrightarrow>
   tick r dt = start_element (r\<lparr>gap_elapsed_ms := gap_elapsed_ms r + dt, queue := q\<rparr>) e"
  by (simp add: tick_def Let_def)

lemma tick_GAP_empty:
  "state r = INTER_ELEMENT_GAP \<Longrightarrow> \<not> gap_elapsed_ms r + dt < gap_total_ms r \<Longrightarrow>
   queue r = [] \<Longrightarrow>
   tick r dt =
     (if get_combo_now r = DIT_ONLY
      then start_element (r\<lparr>gap_elapsed_ms := gap_elapsed_ms r + dt\<rparr>) DIT
      else if get_combo_now r = DAH_ONLY
      then start_element (r\<lparr>gap_elapsed_ms := gap_elapsed_ms r + dt\<rparr>) DAH
      else if get_combo_now r = BOTH
      then start_element (r\<lparr>gap_elapsed_ms := gap_elapsed_ms r + dt\<rparr>)
             (if current_element r = Some DIT then DAH else DIT)
      else Inr (r\<lparr>gap_elapsed_ms := gap_elapsed_ms r + dt\<rparr>
                 \<lparr>state := IDLE, current_element := None,
                  current_element_total_ms := 0, current_element_elapsed_ms := 0,
                  gap_total_ms := 0, gap_elapsed_ms := 0, element_progress_pct := 0,
                  squeeze_seen_this_element := False, queue := []\<rparr>))"
  by (simp add: tick_def Let_def get_combo_now_def)


lemma inv_init: "keyer_inv c (KeyerRuntime_init c)"
  by (simp add: keyer_inv_def KeyerRuntime_init_def get_combo_now_def)

lemma inv_update_paddles:
  "keyer_inv c r \<Longrightarrow> keyer_inv c (update_paddles r dit dah)"
  by (simp add: keyer_inv_def update_paddles_def get_combo_now_def Let_def)

lemma inv_start_element:
  assumes "cfg r = c" "start_element r e = Inr r'"
    and "\<not> dot_requested r \<and> \<not> dah_requested r"
    and "squeeze_mode c = LIVE \<longrightarrow> last_valid_combo r = get_combo_now r"
  shows "keyer_inv c r'"
proof (cases "wpm (cfg r) = 0")
  case True
  with assms(2) show ?thesis by (simp add: start_element_Inl)
next
  case False
  from assms(2) have "r' = r\<lparr>current_element := Some e,
            current_element_total_ms :=
              (if e = DIT then 1200 / real_of_int (wpm (cfg r))
               else 3 * (1200 / real_of_int (wpm (cfg r)))),
            state := (if e = DIT then SEND_DIT else SEND_DAH),
            current_element_elapsed_ms := 0, element_progress_pct := 0,
            squeeze_seen_this_element := False\<rparr>"
    by (simp add: start_element_Inr [OF False])
  with assms(1,3,4) False show ?thesis
    by (cases e) (simp_all add: keyer_inv_def get_combo_now_def)
qed


lemma check_unchanged [simp]:
  "cfg (check_memory_and_squeeze_during_element r) = cfg r"
  "state (check_memory_and_squeeze_during_element r) = state r"
  "current_element (check_memory_and_squeeze_during_element r) = current_element r"
  "current_element_total_ms (check_memory_and_squeeze_during_element r) = current_element_total_ms r"
  "current_element_elapsed_ms (check_memory_and_squeeze_during_element r) = current_element_elapsed_ms r"
  "gap_total_ms (check_memory_and_squeeze_during_element r) = gap_total_ms r"
  "gap_elapsed_ms (check_memory_and_squeeze_during_element r) = gap_elapsed_ms r"
  "queue (check_memory_and_squeeze_during_element r) = queue r"
  "dit_pressed (check_memory_and_squeeze_during_element r) = dit_pressed r"
  "dah_pressed (check_memory_and_squeeze_during_element r) = dah_pressed r"
  "last_valid_combo (check_memory_and_squeeze_during_element r) = last_valid_combo r"
  by (simp_all add: check_memory_and_squeeze_during_element_def Let_def)


lemma check_progress:
  "element_progress_pct (check_memory_and_squeeze_during_element r) =
     (if current_element_total_ms r > 0
      then 100 * current_element_elapsed_ms r / current_element_total_ms r else 0)"
  by (simp add: check_memory_and_squeeze_during_element_def Let_def)

lemma check_squeeze:
  "squeeze_seen_this_element (check_memory_and_squeeze_during_element r) =
     (squeeze_seen_this_element r \<or> get_combo_now r = BOTH)"
  by (simp add: check_memory_and_squeeze_during_element_def Let_def get_combo_now_def)

lemma check_dah:
  "dah_requested (check_memory_and_squeeze_during_element r) =
     (dah_requested r \<or>
      (state r = SEND_DIT
       \<and> (memory_mode (cfg r) = MEM_DAH_ONLY \<or> memory_mode (cfg r) = MEM_DOT_AND_DAH)
       \<and> (get_combo_now r = DAH_ONLY \<or> get_combo_now r = BOTH)
       \<and> mem_block_start_pct (cfg r)
            \<le> element_progress_pct (check_memory_and_squeeze_during_element r)
       \<and> element_progress_pct (check_memory_and_squeeze_during_element r)
            \<le> 100 - mem_block_end_pct (cfg r)))"
  unfolding check_progress
  by (auto simp add: check_memory_and_squeeze_during_element_def Let_def get_combo_now_def)

lemma check_dot:
  "dot_requested (check_memory_and_squeeze_during_element r) =
     (dot_requested r \<or>
      (state r = SEND_DAH
       \<and> (memory_mode (cfg r) = MEM_DOT_ONLY \<or> memory_mode (cfg r) = MEM_DOT_AND_DAH)
       \<and> (get_combo_now r = DIT_ONLY \<or> get_combo_now r = BOTH)
       \<and> mem_block_start_pct (cfg r)
            \<le> element_progress_pct (check_memory_and_squeeze_during_element r)
       \<and> element_progress_pct (check_memory_and_squeeze_during_element r)
            \<le> 100 - mem_block_end_pct (cfg r)))"
  unfolding check_progress
  by (auto simp add: check_memory_and_squeeze_during_element_def Let_def get_combo_now_def)



lemma check_latch_none:
  "memory_mode (cfg r) = MEM_NONE \<Longrightarrow>
   dot_requested (check_memory_and_squeeze_during_element r) = dot_requested r \<and>
   dah_requested (check_memory_and_squeeze_during_element r) = dah_requested r"
  by (simp add: check_memory_and_squeeze_during_element_def Let_def)

lemma get_combo_now_check [simp]:
  "get_combo_now (check_memory_and_squeeze_during_element r) = get_combo_now r"
  by (simp add: get_combo_now_def)

lemma get_combo_now_elapsed [simp]:
  "get_combo_now (r\<lparr>current_element_elapsed_ms := x\<rparr>) = get_combo_now r"
  by (simp add: get_combo_now_def)

lemma get_combo_now_gap_elapsed [simp]:
  "get_combo_now (r\<lparr>gap_elapsed_ms := x\<rparr>) = get_combo_now r"
  by (simp add: get_combo_now_def)

lemma get_combo_now_queue [simp]:
  "get_combo_now (r\<lparr>queue := q\<rparr>) = get_combo_now r"
  by (simp add: get_combo_now_def)

lemma inv_check:
  assumes "keyer_inv c r" "state r = SEND_DIT \<or> state r = SEND_DAH"
  shows "keyer_inv c (check_memory_and_squeeze_during_element
                        (r\<lparr>current_element_elapsed_ms := x\<rparr>))"
  using assms(2)
proof
  assume "state r = SEND_DIT"
  with assms(1) show ?thesis
    unfolding keyer_inv_def by (simp add: check_latch_none)
next
  assume "state r = SEND_DAH"
  with assms(1) show ?thesis
    unfolding keyer_inv_def by (simp add: check_latch_none)
qed


lemma inv_finish:
  assumes "keyer_inv c r" "state r = SEND_DIT \<or> state r = SEND_DAH"
    and "finish_element_and_enter_gap (r\<lparr>current_element_elapsed_ms := x\<rparr>) = Inr r'"
  shows "keyer_inv c r'"
proof -
  from assms(1,2) have w: "wpm (cfg (r\<lparr>current_element_elapsed_ms := x\<rparr>)) \<noteq> 0"
    unfolding keyer_inv_def by auto
  from assms(3) have r': "r' = r\<lparr>current_element_elapsed_ms := x\<rparr>
       \<lparr>queue := queue (r\<lparr>current_element_elapsed_ms := x\<rparr>)
                  @ (if dot_requested (r\<lparr>current_element_elapsed_ms := x\<rparr>) then [DIT] else [])
                  @ (if dah_requested (r\<lparr>current_element_elapsed_ms := x\<rparr>) then [DAH] else [])
                  @ appended (bonus_element (r\<lparr>current_element_elapsed_ms := x\<rparr>)),
        dot_requested := False, dah_requested := False,
        gap_total_ms := 1200 / real_of_int (wpm (cfg (r\<lparr>current_element_elapsed_ms := x\<rparr>))),
        gap_elapsed_ms := 0, state := INTER_ELEMENT_GAP\<rparr>"
    unfolding finish_element_Inr [OF w] by simp
  from assms(2) show ?thesis
  proof
    assume "state r = SEND_DIT"
    with assms(1) show ?thesis
      unfolding keyer_inv_def r' by (simp add: get_combo_now_def)
  next
    assume "state r = SEND_DAH"
    with assms(1) show ?thesis
      unfolding keyer_inv_def r' by (simp add: get_combo_now_def)
  qed
qed



lemma inv_tick:
  assumes "keyer_inv c r" "tick r dt = Inr r'"
  shows "keyer_inv c r'"
proof (cases "state r")
  case IDLE
  from assms(1) IDLE have p: "cfg r = c" "\<not> dot_requested r \<and> \<not> dah_requested r"
    "squeeze_mode c = LIVE \<longrightarrow> last_valid_combo r = get_combo_now r"
    unfolding keyer_inv_def by simp_all
  note st = inv_start_element [OF p(1) _ p(2) p(3)]
  show ?thesis
  proof (cases "get_combo_now r = DIT_ONLY \<or> get_combo_now r = BOTH")
    case True
    with assms(2) have "start_element r DIT = Inr r'"
      unfolding tick_IDLE [OF IDLE] by simp
    then show ?thesis by (rule st)
  next
    case False
    note nd = False
    show ?thesis
    proof (cases "get_combo_now r = DAH_ONLY")
      case True
      with nd assms(2) have "start_element r DAH = Inr r'"
        unfolding tick_IDLE [OF IDLE] by simp
      then show ?thesis by (rule st)
    next
      case False
      with nd assms(2) have eq: "r' = r"
        unfolding tick_IDLE [OF IDLE] by simp
      from assms(1) show ?thesis unfolding eq .
    qed
  qed
next
  case SEND_DIT
  then have s: "state r = SEND_DIT \<or> state r = SEND_DAH" by simp
  show ?thesis
  proof (cases "current_element_elapsed_ms r + dt < current_element_total_ms r")
    case True
    with assms(2) have eq: "r' = check_memory_and_squeeze_during_element
        (r\<lparr>current_element_elapsed_ms := current_element_elapsed_ms r + dt\<rparr>)"
      unfolding tick_SEND [OF s] by simp
    show ?thesis unfolding eq by (rule inv_check [OF assms(1) s])
  next
    case False
    with assms(2) have "finish_element_and_enter_gap
        (r\<lparr>current_element_elapsed_ms := current_element_elapsed_ms r + dt\<rparr>) = Inr r'"
      unfolding tick_SEND [OF s] by simp
    then show ?thesis by (rule inv_finish [OF assms(1) s])
  qed
next
  case SEND_DAH
  then have s: "state r = SEND_DIT \<or> state r = SEND_DAH" by simp
  show ?thesis
  proof (cases "current_element_elapsed_ms r + dt < current_element_total_ms r")
    case True
    with assms(2) have eq: "r' = check_memory_and_squeeze_during_element
        (r\<lparr>current_element_elapsed_ms := current_element_elapsed_ms r + dt\<rparr>)"
      unfolding tick_SEND [OF s] by simp
    show ?thesis unfolding eq by (rule inv_check [OF assms(1) s])
  next
    case False
    with assms(2) have "finish_element_and_enter_gap
        (r\<lparr>current_element_elapsed_ms := current_element_elapsed_ms r + dt\<rparr>) = Inr r'"
      unfolding tick_SEND [OF s] by simp
    then show ?thesis by (rule inv_finish [OF assms(1) s])
  qed
next
  case INTER_ELEMENT_GAP
  note g = INTER_ELEMENT_GAP
  from assms(1) g have q: "cfg r = c" "\<not> dot_requested r \<and> \<not> dah_requested r"
    "squeeze_mode c = LIVE \<longrightarrow> last_valid_combo r = get_combo_now r"
    unfolding keyer_inv_def by simp_all
  show ?thesis
  proof (cases "gap_elapsed_ms r + dt < gap_total_ms r")
    case True
    with assms(2) g have eq: "r' = r\<lparr>gap_elapsed_ms := gap_elapsed_ms r + dt\<rparr>"
      by (simp add: tick_GAP_wait)
    from assms(1) g show ?thesis
      unfolding eq keyer_inv_def by simp
  next
    case False
    note ne = False
    show ?thesis
    proof (cases "queue r")
      case (Cons e q')
      let ?r1 = "r\<lparr>gap_elapsed_ms := gap_elapsed_ms r + dt, queue := q'\<rparr>"
      from assms(2) have st: "start_element ?r1 e = Inr r'"
        by (simp add: tick_GAP_queue [OF g ne Cons])
      from q have q1: "cfg ?r1 = c" "\<not> dot_requested ?r1 \<and> \<not> dah_requested ?r1"
        "squeeze_mode c = LIVE \<longrightarrow> last_valid_combo ?r1 = get_combo_now ?r1"
        by simp_all
      from st show ?thesis by (rule inv_start_element [OF q1(1) _ q1(2) q1(3)])
    next
      case Nil
      let ?r1 = "r\<lparr>gap_elapsed_ms := gap_elapsed_ms r + dt\<rparr>"
      let ?r2 = "?r1\<lparr>state := IDLE, current_element := None,
                  current_element_total_ms := 0, current_element_elapsed_ms := 0,
                  gap_total_ms := 0, gap_elapsed_ms := 0, element_progress_pct := 0,
                  squeeze_seen_this_element := False, queue := []\<rparr>"
      from q have q1: "cfg ?r1 = c" "\<not> dot_requested ?r1 \<and> \<not> dah_requested ?r1"
        "squeeze_mode c = LIVE \<longrightarrow> last_valid_combo ?r1 = get_combo_now ?r1"
        by simp_all
      note st = inv_start_element [OF q1(1) _ q1(2) q1(3)]
      note tk = assms(2) [unfolded tick_GAP_empty [OF g ne Nil]]
      show ?thesis
      proof (cases "get_combo_now r")
        case DIT_ONLY
        with tk have "start_element ?r1 DIT = Inr r'" by simp
        then show ?thesis by (rule st)
      next
        case DAH_ONLY
        with tk have "start_element ?r1 DAH = Inr r'" by simp
        then show ?thesis by (rule st)
      next
        case BOTH
        with tk have "start_element ?r1 (if current_element r = Some DIT then DAH else DIT) = Inr r'"
          by simp
        then show ?thesis by (rule st)
      next
        case NONE
        with tk have eq: "r' = ?r2" by simp
        from q show ?thesis
          unfolding eq keyer_inv_def by (simp add: get_combo_now_def)
      qed
    qed
  qed
qed

lemma inv_step: "keyer_inv c r \<Longrightarrow> step r ev = Inr r' \<Longrightarrow> keyer_inv c r'"
  by (cases ev) (auto simp add: inv_tick inv_update_paddles)

lemma inv_run: "keyer_inv c r \<Longrightarrow> run r evs = Inr r' \<Longrightarrow> keyer_inv c r'"
proof (induction evs arbitrary: r)
  case Nil
  then show ?case by simp
next
  case (Cons ev evs)
  then show ?case by (auto split: sum.splits dest: inv_step)
qed

lemma inv_reachable: "run (KeyerRuntime_init c) evs = Inr r \<Longrightarrow> keyer_inv c r"
  using inv_run [OF inv_init] .

lemmas eval_defs = KeyerRuntime_init_def default_cfg_def update_paddles_def get_combo_now_def
  tick_def start_element_def start_gap_def dit_duration_ms_def dah_duration_ms_def
  gap_duration_ms_def check_memory_and_squeeze_during_element_def bonus_element_def
  finish_element_and_enter_gap_def Let_def

lemma dit_dah_pressed_reachable:
  "run (KeyerRuntime_init default_cfg) [Paddles True False, Tick 1, Paddles False True]
     = Inr dit_dah_pressed"
  by (simp add: eval_defs dit_dah_pressed_def)

lemma bonus_element_elapsed [simp]:
  "bonus_element (r\<lparr>current_element_elapsed_ms := x\<rparr>) = bonus_element r"
  by (auto simp add: bonus_element_def Let_def)

lemma tick_completion:
  assumes "state r = SEND_DIT \<or> state r = SEND_DAH" "wpm (cfg r) \<noteq> 0"
    and "\<not> current_element_elapsed_ms r + dt < current_element_total_ms r"
  shows "tick r dt =
     Inr (r\<lparr>current_element_elapsed_ms := current_element_elapsed_ms r + dt,
            queue := queue r @ (if dot_requested r then [DIT] else [])
                        @ (if dah_requested r then [DAH] else [])
                        @ appended (bonus_element r),
            dot_requested := False, dah_requested := False,
            gap_total_ms := 1200 / real_of_int (wpm (cfg r)), gap_elapsed_ms := 0,
            state := INTER_ELEMENT_GAP\<rparr>)"
proof -
  have w: "wpm (cfg (r\<lparr>current_element_elapsed_ms := current_element_elapsed_ms r + dt\<rparr>)) \<noteq> 0"
    using assms(2) by simp
  show ?thesis
    unfolding tick_SEND [OF assms(1)] using assms(3)
    by (simp add: finish_element_Inr [OF w])
qed

lemma squeezed_dit_released_reachable:
  "run (KeyerRuntime_init default_cfg)
     [Paddles True False, Tick 1, Paddles True True, Tick 30, Paddles False False]
     = Inr squeezed_dit_released"
  by (simp add: eval_defs squeezed_dit_released_def)

lemma finish_element_Inl:
  "wpm (cfg r) = 0 \<Longrightarrow> finish_element_and_enter_gap r = Inl ZeroDivisionError"
  by (cases "bonus_element r")
     (simp_all add: finish_element_and_enter_gap_def start_gap_def gap_duration_ms_def
        dit_duration_ms_def Let_def)

lemma start_element_queue:
  assumes "start_element r e = Inr r'"
  shows "queue r' = queue r"
proof (cases "wpm (cfg r) = 0")
  case True
  with assms show ?thesis by (simp add: start_element_Inl)
next
  case False
  from assms have eq: "r' = r\<lparr>current_element := Some e,
            current_element_total_ms :=
              (if e = DIT then 1200 / real_of_int (wpm (cfg r))
               else 3 * (1200 / real_of_int (wpm (cfg r)))),
            state := (if e = DIT then SEND_DIT else SEND_DAH),
            current_element_elapsed_ms := 0, element_progress_pct := 0,
            squeeze_seen_this_element := False\<rparr>"
    by (simp add: start_element_Inr [OF False])
  show ?thesis unfolding eq by simp
qed

lemma bonus_element_mode_A:
  "iambic_mode (cfg r) = MODE_A \<Longrightarrow> bonus_element r = None"
  by (simp add: bonus_element_def)

lemma bonus_element_mode_B:
  "iambic_mode (cfg r) = MODE_B \<Longrightarrow> current_element r = Some e \<Longrightarrow>
   appended (bonus_element r) =
     (if squeeze_seen_this_element r
         \<and> (if squeeze_mode (cfg r) = LIVE then get_combo_now r else last_valid_combo r) \<noteq> BOTH
      then [opposite e] else [])"
  by (cases e) (simp_all add: bonus_element_def Let_def)

lemma tick_queue:
  assumes "tick r dt = Inr r'"
  shows "queue r' =
     (if (state r = SEND_DIT \<or> state r = SEND_DAH)
         \<and> \<not> current_element_elapsed_ms r + dt < current_element_total_ms r
      then queue r @ (if dot_requested r then [DIT] else [])
                   @ (if dah_requested r then [DAH] else [])
                   @ appended (bonus_element r)
      else if state r = INTER_ELEMENT_GAP \<and> \<not> gap_elapsed_ms r + dt < gap_total_ms r
      then tl (queue r)
      else queue r)"
proof (cases "state r")
  case IDLE
  show ?thesis
  proof (cases "get_combo_now r = DIT_ONLY \<or> get_combo_now r = BOTH")
    case True
    with assms have "start_element r DIT = Inr r'"
      unfolding tick_IDLE [OF IDLE] by simp
    from start_element_queue [OF this] IDLE show ?thesis by simp
  next
    case False
    note nd = False
    show ?thesis
    proof (cases "get_combo_now r = DAH_ONLY")
      case True
      with nd assms have "start_element r DAH = Inr r'"
        unfolding tick_IDLE [OF IDLE] by simp
      from start_element_queue [OF this] IDLE show ?thesis by simp
    next
      case False
      with nd assms have eq: "r' = r"
        unfolding tick_IDLE [OF IDLE] by simp
      from IDLE show ?thesis unfolding eq by simp
    qed
  qed
next
  case SEND_DIT
  then have s: "state r = SEND_DIT \<or> state r = SEND_DAH" by simp
  show ?thesis
  proof (cases "current_element_elapsed_ms r + dt < current_element_total_ms r")
    case True
    with assms have eq: "r' = check_memory_and_squeeze_during_element
        (r\<lparr>current_element_elapsed_ms := current_element_elapsed_ms r + dt\<rparr>)"
      unfolding tick_SEND [OF s] by simp
    from True SEND_DIT show ?thesis unfolding eq by simp
  next
    case False
    show ?thesis
    proof (cases "wpm (cfg r) = 0")
      case True
      with assms False show ?thesis
        unfolding tick_SEND [OF s] by (simp add: finish_element_Inl)
    next
      case nz: False
      from assms have eq: "r' = r\<lparr>current_element_elapsed_ms := current_element_elapsed_ms r + dt,
            queue := queue r @ (if dot_requested r then [DIT] else [])
                        @ (if dah_requested r then [DAH] else [])
                        @ appended (bonus_element r),
            dot_requested := False, dah_requested := False,
            gap_total_ms := 1200 / real_of_int (wpm (cfg r)), gap_elapsed_ms := 0,
            state := INTER_ELEMENT_GAP\<rparr>"
        unfolding tick_completion [OF s nz False] by simp
      from False s show ?thesis unfolding eq by simp
    qed
  qed
next
  case SEND_DAH
  then have s: "state r = SEND_DIT \<or> state r = SEND_DAH" by simp
  show ?thesis
  proof (cases "current_element_elapsed_ms r + dt < current_element_total_ms r")
    case True
    with assms have eq: "r' = check_memory_and_squeeze_during_element
        (r\<lparr>current_element_elapsed_ms := current_element_elapsed_ms r + dt\<rparr>)"
      unfolding tick_SEND [OF s] by simp
    from True SEND_DAH show ?thesis unfolding eq by simp
  next
    case False
    show ?thesis
    proof (cases "wpm (cfg r) = 0")
      case True
      with assms False show ?thesis
        unfolding tick_SEND [OF s] by (simp add: finish_element_Inl)
    next
      case nz: False
      from assms have eq: "r' = r\<lparr>current_element_elapsed_ms := current_element_elapsed_ms r + dt,
            queue := queue r @ (if dot_requested r then [DIT] else [])
                        @ (if dah_requested r then [DAH] else [])
                        @ appended (bonus_element r),
            dot_requested := False, dah_requested := False,
            gap_total_ms := 1200 / real_of_int (wpm (cfg r)), gap_elapsed_ms := 0,
            state := INTER_ELEMENT_GAP\<rparr>"
        unfolding tick_completion [OF s nz False] by simp
      from False s show ?thesis unfolding eq by simp
    qed
  qed
next
  case INTER_ELEMENT_GAP
  note g = INTER_ELEMENT_GAP
  show ?thesis
  proof (cases "gap_elapsed_ms r + dt < gap_total_ms r")
    case True
    with assms g have eq: "r' = r\<lparr>gap_elapsed_ms := gap_elapsed_ms r + dt\<rparr>"
      by (simp add: tick_GAP_wait)
    from True g show ?thesis unfolding eq by simp
  next
    case False
    note ne = False
    show ?thesis
    proof (cases "queue r")
      case (Cons e q')
      from assms have "start_element (r\<lparr>gap_elapsed_ms := gap_elapsed_ms r + dt, queue := q'\<rparr>) e = Inr r'"
        by (simp add: tick_GAP_queue [OF g ne Cons])
      from start_element_queue [OF this] g ne Cons show ?thesis by simp
    next
      case Nil
      let ?r1 = "r\<lparr>gap_elapsed_ms := gap_elapsed_ms r + dt\<rparr>"
      note tk = assms [unfolded tick_GAP_empty [OF g ne Nil]]
      show ?thesis
      proof (cases "get_combo_now r")
        case DIT_ONLY
        with tk have "start_element ?r1 DIT = Inr r'" by simp
        from start_element_queue [OF this] g ne Nil show ?thesis by simp
      next
        case DAH_ONLY
        with tk have "start_element ?r1 DAH = Inr r'" by simp
        from start_element_queue [OF this] g ne Nil show ?thesis by simp
      next
        case BOTH
        with tk have "start_element ?r1 (if current_element r = Some DIT then DAH else DIT) = Inr r'"
          by simp
        from start_element_queue [OF this] g ne Nil show ?thesis by simp
      next
        case NONE
        with tk have eq: "queue r' = []" by auto
        from g ne Nil show ?thesis unfolding eq by simp
      qed
    qed
  qed
qed


lemma squeezed_mode_A_reachable:
  "run (KeyerRuntime_init (default_cfg\<lparr>iambic_mode := MODE_A\<rparr>))
     [Paddles True False, Tick 1, Paddles True True, Tick 30, Paddles False False]
     = Inr squeezed_mode_A"
  by (simp add: eval_defs squeezed_mode_A_def squeezed_dit_released_def)

lemma squeezed_no_memory_reachable:
  "run (KeyerRuntime_init (default_cfg\<lparr>memory_mode := MEM_NONE\<rparr>))
     [Paddles True False, Tick 1, Paddles True True, Tick 30, Paddles False False]
     = Inr squeezed_no_memory"
  by (simp add: eval_defs squeezed_no_memory_def squeezed_dit_released_def)

lemma gap_with_queue_reachable:
  "run (KeyerRuntime_init default_cfg)
     [Paddles True False, Tick 1, Paddles True True, Tick 30, Paddles False False, Tick 30]
     = Inr gap_with_queue"
  by (simp add: eval_defs gap_with_queue_def squeezed_dit_released_def)

lemma gap_nothing_left_reachable:
  "run (KeyerRuntime_init default_cfg)
     [Paddles True False, Tick 1, Paddles False False, Tick 60]
     = Inr gap_nothing_left"
  by (simp add: eval_defs gap_nothing_left_def)

lemma gap_nothing_left_snapshot_reachable:
  "run (KeyerRuntime_init (default_cfg\<lparr>squeeze_mode := SNAPSHOT\<rparr>))
     [Paddles True False, Tick 1, Paddles False False, Tick 60]
     = Inr gap_nothing_left_snapshot"
  by (simp add: eval_defs gap_nothing_left_snapshot_def gap_nothing_left_def)

lemma run_idle_none:
  "state r = IDLE \<Longrightarrow> get_combo_now r = NONE \<Longrightarrow> run r (map Tick dts) = Inr r"
  by (induction dts) (simp_all add: tick_IDLE)

lemma start_element_fields:
  assumes "wpm (cfg r) \<noteq> 0"
  shows "\<exists>r'. start_element r e = Inr r' \<and> current_element r' = Some e
     \<and> state r' = (if e = DIT then SEND_DIT else SEND_DAH)
     \<and> current_element_elapsed_ms r' = 0
     \<and> current_element_total_ms r' =
          (if e = DIT then 1200 / real_of_int (wpm (cfg r))
           else 3 * (1200 / real_of_int (wpm (cfg r))))
     \<and> queue r' = queue r"
  unfolding start_element_Inr [OF assms] by simp

section \<open>The paddle-update operation\<close>

text \<open>
  Claim C5. For every call to \<^verbatim>\<open>update_paddles\<close>: when the squeeze mode is SNAPSHOT,
  \<^verbatim>\<open>last_valid_combo\<close> becomes the combo of the paddle booleans stored before the call if
  and only if that combo differs from the combo of the new booleans, and is left unchanged
  otherwise; when the squeeze mode is LIVE, it becomes the new combo unconditionally.
  (The new combo is the classifier applied to the two arguments.)
\<close>

theorem update_paddles_last_valid_combo:
  "last_valid_combo (update_paddles r dit dah) =
     (if squeeze_mode (cfg r) = SNAPSHOT then
        (if get_combo_now r \<noteq> get_combo_now (r\<lparr>dit_pressed := dit, dah_pressed := dah\<rparr>)
         then get_combo_now r else last_valid_combo r)
      else get_combo_now (r\<lparr>dit_pressed := dit, dah_pressed := dah\<rparr>))
   \<and> get_combo_now (r\<lparr>dit_pressed := dit, dah_pressed := dah\<rparr>) =
       (if dit \<and> dah then BOTH else if dit then DIT_ONLY else if dah then DAH_ONLY else NONE)
   \<and> dit_pressed (update_paddles r dit dah) = dit
   \<and> dah_pressed (update_paddles r dit dah) = dah"
  by (simp add: update_paddles_def get_combo_now_def Let_def)

theorem update_paddles_last_valid_combo_witness:
  "last_valid_combo (update_paddles
      ((KeyerRuntime_init (default_cfg\<lparr>squeeze_mode := SNAPSHOT\<rparr>))
         \<lparr>dit_pressed := True, dah_pressed := True\<rparr>) False False) = BOTH
   \<and> last_valid_combo (update_paddles
      ((KeyerRuntime_init default_cfg)\<lparr>dit_pressed := True, dah_pressed := True\<rparr>)
      False False) = NONE"
  using update_paddles_last_valid_combo
    [of "(KeyerRuntime_init (default_cfg\<lparr>squeeze_mode := SNAPSHOT\<rparr>))
           \<lparr>dit_pressed := True, dah_pressed := True\<rparr>" False False]
    update_paddles_last_valid_combo
    [of "(KeyerRuntime_init default_cfg)\<lparr>dit_pressed := True, dah_pressed := True\<rparr>"
        False False]
  by (simp add: KeyerRuntime_init_def default_cfg_def get_combo_now_def)

section \<open>The timing model and the configuration\<close>

text \<open>
  Claim C8. For every \<^verbatim>\<open>wpm > 0\<close> the timing model yields a dit of \<^verbatim>\<open>1200.0 / wpm\<close>
  milliseconds, a dah of three dits and a gap of one dit (floats read as real numbers).
\<close>

theorem timing_model:
  assumes "0 < wpm c"
  shows "dit_duration_ms c = Inr (1200 / real_of_int (wpm c))
       \<and> dah_duration_ms c = Inr (3 * (1200 / real_of_int (wpm c)))
       \<and> gap_duration_ms c = Inr (1200 / real_of_int (wpm c))"
  using assms by (simp add: dit_duration_ms_def dah_duration_ms_def gap_duration_ms_def)

theorem timing_model_witness:
  "(0::int) < wpm default_cfg \<and> dit_duration_ms default_cfg = Inr 60
     \<and> dah_duration_ms default_cfg = Inr 180 \<and> gap_duration_ms default_cfg = Inr 60"
  using timing_model [of default_cfg] by (simp add: default_cfg_def)

text \<open>
  Claim C7, as the specification states it, asks that constructing a configuration with
  \<^verbatim>\<open>wpm \<le> 0\<close> fails. The constructor stores its arguments unchecked: at
  \<^verbatim>\<open>wpm = -20\<close> it returns a configuration, whose dit lasts -60 ms.
\<close>

theorem KeyerConfig_init_nonpositive_wpm_counterexample:
  "KeyerConfig_init (- 20) MODE_B MEM_DOT_AND_DAH LIVE 15 15
     = Inr \<lparr>wpm = - 20, iambic_mode = MODE_B, memory_mode = MEM_DOT_AND_DAH,
            squeeze_mode = LIVE, mem_block_start_pct = 15, mem_block_end_pct = 15\<rparr>
   \<and> dit_duration_ms \<lparr>wpm = - 20, iambic_mode = MODE_B, memory_mode = MEM_DOT_AND_DAH,
            squeeze_mode = LIVE, mem_block_start_pct = 15, mem_block_end_pct = 15\<rparr>
     = Inr (- 60)"
  by (simp add: KeyerConfig_init_def dit_duration_ms_def)

text \<open>
  Claim C7, amended. Constructing a configuration never fails, whatever \<^verbatim>\<open>wpm\<close> is.
  With \<^verbatim>\<open>wpm = 0\<close> the division by zero is raised later, when a duration is first
  computed (starting an element fails with \<^verbatim>\<open>ZeroDivisionError\<close>); with any other
  \<^verbatim>\<open>wpm\<close>, negative ones included, the dit lasts \<^verbatim>\<open>1200 / wpm\<close> ms and no error is
  raised.
\<close>

theorem KeyerConfig_init_never_fails:
  "KeyerConfig_init w im mm sm sp ep
     = Inr \<lparr>wpm = w, iambic_mode = im, memory_mode = mm, squeeze_mode = sm,
            mem_block_start_pct = sp, mem_block_end_pct = ep\<rparr>
   \<and> dit_duration_ms \<lparr>wpm = w, iambic_mode = im, memory_mode = mm, squeeze_mode = sm,
            mem_block_start_pct = sp, mem_block_end_pct = ep\<rparr>
     = (if w = 0 then Inl ZeroDivisionError else Inr (1200 / real_of_int w))
   \<and> (w = 0 \<longrightarrow> start_element (KeyerRuntime_init
            \<lparr>wpm = w, iambic_mode = im, memory_mode = mm, squeeze_mode = sm,
             mem_block_start_pct = sp, mem_block_end_pct = ep\<rparr>) e = Inl ZeroDivisionError)"
  by (simp add: KeyerConfig_init_def dit_duration_ms_def start_element_Inl KeyerRuntime_init_def)

theorem KeyerConfig_init_never_fails_witness:
  "KeyerConfig_init 0 MODE_B MEM_DOT_AND_DAH LIVE 15 15
     = Inr \<lparr>wpm = 0, iambic_mode = MODE_B, memory_mode = MEM_DOT_AND_DAH,
            squeeze_mode = LIVE, mem_block_start_pct = 15, mem_block_end_pct = 15\<rparr>
   \<and> dit_duration_ms \<lparr>wpm = 0, iambic_mode = MODE_B, memory_mode = MEM_DOT_AND_DAH,
            squeeze_mode = LIVE, mem_block_start_pct = 15, mem_block_end_pct = 15\<rparr>
     = Inl ZeroDivisionError
   \<and> start_element (KeyerRuntime_init
            \<lparr>wpm = 0, iambic_mode = MODE_B, memory_mode = MEM_DOT_AND_DAH,
             squeeze_mode = LIVE, mem_block_start_pct = 15, mem_block_end_pct = 15\<rparr>) DIT
     = Inl ZeroDivisionError"
  using KeyerConfig_init_never_fails [of 0 MODE_B MEM_DOT_AND_DAH LIVE 15 15 DIT] by simp

section \<open>During an element: squeeze tracking and memory latches\<close>

text \<open>
  Claim C4. On every tick in SEND_DIT or SEND_DAH that leaves the elapsed time below the
  total, the tick returns, and in the runtime it returns: the progress is
  \<^verbatim>\<open>100 * elapsed / total\<close> (0 when the total is not positive);
  \<^verbatim>\<open>squeeze_seen_this_element\<close> is set whenever the combo is BOTH, whatever the window
  and the memory mode; \<^verbatim>\<open>dah_requested\<close> is set exactly when it was set before or a DIT
  is being sent, the memory mode is DAH_ONLY or DOT_AND_DAH, the combo is DAH_ONLY or
  BOTH, and the progress lies between \<^verbatim>\<open>mem_block_start_pct\<close> and
  \<^verbatim>\<open>100 - mem_block_end_pct\<close>; symmetrically for \<^verbatim>\<open>dot_requested\<close> while a DAH is
  sent. The witness is the example of the specification: with dead zones of 15 percent,
  a dah press seen at 10 or 90 percent of a dit sets no latch, one seen at 50 percent
  does.
\<close>

theorem memory_latch_during_element:
  assumes "state r = SEND_DIT \<or> state r = SEND_DAH"
    and "current_element_elapsed_ms r + dt < current_element_total_ms r"
  shows "\<exists>r'. tick r dt = Inr r' \<and>
     element_progress_pct r' =
       (if current_element_total_ms r > 0
        then 100 * (current_element_elapsed_ms r + dt) / current_element_total_ms r else 0) \<and>
     squeeze_seen_this_element r' = (squeeze_seen_this_element r \<or> get_combo_now r = BOTH) \<and>
     dah_requested r' =
       (dah_requested r \<or>
        (state r = SEND_DIT
         \<and> (memory_mode (cfg r) = MEM_DAH_ONLY \<or> memory_mode (cfg r) = MEM_DOT_AND_DAH)
         \<and> (get_combo_now r = DAH_ONLY \<or> get_combo_now r = BOTH)
         \<and> mem_block_start_pct (cfg r) \<le> element_progress_pct r'
         \<and> element_progress_pct r' \<le> 100 - mem_block_end_pct (cfg r))) \<and>
     dot_requested r' =
       (dot_requested r \<or>
        (state r = SEND_DAH
         \<and> (memory_mode (cfg r) = MEM_DOT_ONLY \<or> memory_mode (cfg r) = MEM_DOT_AND_DAH)
         \<and> (get_combo_now r = DIT_ONLY \<or> get_combo_now r = BOTH)
         \<and> mem_block_start_pct (cfg r) \<le> element_progress_pct r'
         \<and> element_progress_pct r' \<le> 100 - mem_block_end_pct (cfg r)))"
proof -
  let ?r1 = "r\<lparr>current_element_elapsed_ms := current_element_elapsed_ms r + dt\<rparr>"
  have t: "tick r dt = Inr (check_memory_and_squeeze_during_element ?r1)"
    unfolding tick_SEND [OF assms(1)] using assms(2) by simp
  have "element_progress_pct (check_memory_and_squeeze_during_element ?r1) =
       (if current_element_total_ms r > 0
        then 100 * (current_element_elapsed_ms r + dt) / current_element_total_ms r else 0)"
    unfolding check_progress by simp
  moreover have "squeeze_seen_this_element (check_memory_and_squeeze_during_element ?r1) =
       (squeeze_seen_this_element r \<or> get_combo_now r = BOTH)"
    unfolding check_squeeze by simp
  moreover note check_dah [of ?r1, simplified] check_dot [of ?r1, simplified]
  ultimately show ?thesis unfolding t by blast
qed

theorem memory_latch_during_element_witness:
  "(\<exists>r'. tick dit_dah_pressed 6 = Inr r' \<and> element_progress_pct r' = 10
         \<and> \<not> squeeze_seen_this_element r' \<and> \<not> dah_requested r' \<and> \<not> dot_requested r') \<and>
   (\<exists>r'. tick dit_dah_pressed 30 = Inr r' \<and> element_progress_pct r' = 50
         \<and> \<not> squeeze_seen_this_element r' \<and> dah_requested r' \<and> \<not> dot_requested r') \<and>
   (\<exists>r'. tick dit_dah_pressed 54 = Inr r' \<and> element_progress_pct r' = 90
         \<and> \<not> squeeze_seen_this_element r' \<and> \<not> dah_requested r' \<and> \<not> dot_requested r')"
proof -
  have f: "current_element_total_ms dit_dah_pressed = 60"
    "current_element_elapsed_ms dit_dah_pressed = 0"
    "dah_requested dit_dah_pressed = False"
    "dot_requested dit_dah_pressed = False"
    "squeeze_seen_this_element dit_dah_pressed = False"
    "memory_mode (cfg dit_dah_pressed) = MEM_DOT_AND_DAH"
    "mem_block_start_pct (cfg dit_dah_pressed) = 15"
    "mem_block_end_pct (cfg dit_dah_pressed) = 15"
    "state dit_dah_pressed = SEND_DIT"
    "get_combo_now dit_dah_pressed = DAH_ONLY"
    by (simp_all add: dit_dah_pressed_def default_cfg_def get_combo_now_def)
  have "\<exists>r'. tick dit_dah_pressed 6 = Inr r' \<and> element_progress_pct r' = 10
         \<and> \<not> squeeze_seen_this_element r' \<and> \<not> dah_requested r' \<and> \<not> dot_requested r'"
    using memory_latch_during_element [of dit_dah_pressed 6]
    by (simp add: f cong: conj_cong)
  moreover
  have "\<exists>r'. tick dit_dah_pressed 30 = Inr r' \<and> element_progress_pct r' = 50
         \<and> \<not> squeeze_seen_this_element r' \<and> dah_requested r' \<and> \<not> dot_requested r'"
    using memory_latch_during_element [of dit_dah_pressed 30]
    by (simp add: f cong: conj_cong)
  moreover
  have "\<exists>r'. tick dit_dah_pressed 54 = Inr r' \<and> element_progress_pct r' = 90
         \<and> \<not> squeeze_seen_this_element r' \<and> \<not> dah_requested r' \<and> \<not> dot_requested r'"
    using memory_latch_during_element [of dit_dah_pressed 54]
    by (simp add: f cong: conj_cong)
  ultimately show ?thesis by (intro conjI)
qed

section \<open>Element completion\<close>

text \<open>
  Claim C3. On every tick that completes an element (the elapsed time reaches the total),
  with a nonzero \<^verbatim>\<open>wpm\<close>, the queue receives, in this order: DIT if
  \<^verbatim>\<open>dot_requested\<close>, then DAH if \<^verbatim>\<open>dah_requested\<close>, then the Mode B bonus element if
  one was computed; both latches are cleared and the gap starts. So a memory-derived
  element always precedes the bonus element.
\<close>

theorem completion_enqueue_order:
  assumes "state r = SEND_DIT \<or> state r = SEND_DAH" and "wpm (cfg r) \<noteq> 0"
    and "\<not> current_element_elapsed_ms r + dt < current_element_total_ms r"
  shows "\<exists>r'. tick r dt = Inr r' \<and>
     queue r' = queue r @ (if dot_requested r then [DIT] else [])
                        @ (if dah_requested r then [DAH] else [])
                        @ appended (bonus_element r) \<and>
     \<not> dot_requested r' \<and> \<not> dah_requested r' \<and> state r' = INTER_ELEMENT_GAP"
  unfolding tick_completion [OF assms] by simp

theorem completion_enqueue_order_witness:
  "(state squeezed_dit_released = SEND_DIT \<or> state squeezed_dit_released = SEND_DAH) \<and>
   wpm (cfg squeezed_dit_released) \<noteq> 0 \<and>
   \<not> current_element_elapsed_ms squeezed_dit_released + 30
       < current_element_total_ms squeezed_dit_released \<and>
   (\<exists>r'. tick squeezed_dit_released 30 = Inr r' \<and> queue r' = [DAH, DAH] \<and>
         \<not> dot_requested r' \<and> \<not> dah_requested r' \<and> state r' = INTER_ELEMENT_GAP)"
  using completion_enqueue_order [of squeezed_dit_released 30]
  by (simp add: squeezed_dit_released_def default_cfg_def bonus_element_def
        get_combo_now_def Let_def)

text \<open>
  Claim C1. In every runtime reached from a fresh one by calls of \<^verbatim>\<open>tick\<close> and
  \<^verbatim>\<open>update_paddles\<close>, a tick that completes an element returns; the element just sent
  is \<^verbatim>\<open>current_element\<close>; and after the memory-derived elements the queue receives a
  bonus element if and only if the mode is B, a squeeze was seen during the element and
  the reference combo (the live combo under LIVE, \<^verbatim>\<open>last_valid_combo\<close> under SNAPSHOT)
  is not BOTH; the bonus is the element opposite to the one just sent. In mode A no call
  ever appends a bonus: \<^verbatim>\<open>update_paddles\<close> leaves the queue as it is, a completing tick
  appends the memory-derived elements only, and every other tick leaves the queue as it is
  or removes its head.
\<close>

theorem bonus_at_element_completion:
  assumes "run (KeyerRuntime_init c) evs = Inr r"
  shows "((state r = SEND_DIT \<or> state r = SEND_DAH)
           \<and> \<not> current_element_elapsed_ms r + dt < current_element_total_ms r \<longrightarrow>
          (\<exists>e r'. current_element r = Some e
             \<and> state r = (if e = DIT then SEND_DIT else SEND_DAH)
             \<and> tick r dt = Inr r'
             \<and> queue r' = queue r @ (if dot_requested r then [DIT] else [])
                                 @ (if dah_requested r then [DAH] else [])
                                 @ (if iambic_mode c = MODE_B \<and> squeeze_seen_this_element r
                                       \<and> (if squeeze_mode c = LIVE then get_combo_now r
                                           else last_valid_combo r) \<noteq> BOTH
                                    then [opposite e] else [])))
       \<and> (iambic_mode c = MODE_A \<longrightarrow>
            queue (update_paddles r dit dah) = queue r
            \<and> (\<forall>r'. tick r dt = Inr r' \<longrightarrow>
                 queue r' =
                   (if (state r = SEND_DIT \<or> state r = SEND_DAH)
                       \<and> \<not> current_element_elapsed_ms r + dt < current_element_total_ms r
                    then queue r @ (if dot_requested r then [DIT] else [])
                                 @ (if dah_requested r then [DAH] else [])
                    else if state r = INTER_ELEMENT_GAP
                            \<and> \<not> gap_elapsed_ms r + dt < gap_total_ms r
                    then tl (queue r)
                    else queue r)))"
proof -
  from assms have i: "keyer_inv c r" by (rule inv_reachable)
  then have cr: "cfg r = c" unfolding keyer_inv_def by simp
  have completion: "\<exists>e r'. current_element r = Some e
             \<and> state r = (if e = DIT then SEND_DIT else SEND_DAH)
             \<and> tick r dt = Inr r'
             \<and> queue r' = queue r @ (if dot_requested r then [DIT] else [])
                                 @ (if dah_requested r then [DAH] else [])
                                 @ (if iambic_mode c = MODE_B \<and> squeeze_seen_this_element r
                                       \<and> (if squeeze_mode c = LIVE then get_combo_now r
                                           else last_valid_combo r) \<noteq> BOTH
                                    then [opposite e] else [])"
    if s: "state r = SEND_DIT \<or> state r = SEND_DAH"
      and ne: "\<not> current_element_elapsed_ms r + dt < current_element_total_ms r"
  proof -
    from i s cr have nz: "wpm (cfg r) \<noteq> 0" unfolding keyer_inv_def by auto
    from i s obtain e where ce: "current_element r = Some e"
      and se: "state r = (if e = DIT then SEND_DIT else SEND_DAH)"
      unfolding keyer_inv_def by fastforce
    have b: "appended (bonus_element r) =
        (if iambic_mode c = MODE_B \<and> squeeze_seen_this_element r
              \<and> (if squeeze_mode c = LIVE then get_combo_now r
                  else last_valid_combo r) \<noteq> BOTH
         then [opposite e] else [])"
    proof (cases "iambic_mode c")
      case MODE_A
      with cr show ?thesis by (simp add: bonus_element_mode_A)
    next
      case MODE_B
      with cr bonus_element_mode_B [of r e] ce show ?thesis by simp
    qed
    show ?thesis
      unfolding tick_completion [OF s nz ne] using ce se by (simp add: b)
  qed
  have mode_A: "queue r' =
                   (if (state r = SEND_DIT \<or> state r = SEND_DAH)
                       \<and> \<not> current_element_elapsed_ms r + dt < current_element_total_ms r
                    then queue r @ (if dot_requested r then [DIT] else [])
                                 @ (if dah_requested r then [DAH] else [])
                    else if state r = INTER_ELEMENT_GAP
                            \<and> \<not> gap_elapsed_ms r + dt < gap_total_ms r
                    then tl (queue r)
                    else queue r)"
    if a: "iambic_mode c = MODE_A" and t: "tick r dt = Inr r'" for r'
  proof -
    from a cr have "bonus_element r = None" by (simp add: bonus_element_mode_A)
    with tick_queue [OF t] show ?thesis by simp
  qed
  have "queue (update_paddles r dit dah) = queue r"
    by (simp add: update_paddles_def Let_def)
  with completion mode_A show ?thesis by blast
qed

theorem bonus_at_element_completion_witness:
  "run (KeyerRuntime_init default_cfg)
     [Paddles True False, Tick 1, Paddles True True, Tick 30, Paddles False False]
     = Inr squeezed_dit_released
   \<and> (\<exists>r'. tick squeezed_dit_released 30 = Inr r' \<and> queue r' = [DAH, DAH])
   \<and> run (KeyerRuntime_init (default_cfg\<lparr>iambic_mode := MODE_A\<rparr>))
     [Paddles True False, Tick 1, Paddles True True, Tick 30, Paddles False False]
     = Inr squeezed_mode_A
   \<and> (\<exists>r'. tick squeezed_mode_A 30 = Inr r' \<and> queue r' = [DAH])"
proof -
  have "\<exists>r'. tick squeezed_dit_released 30 = Inr r' \<and> queue r' = [DAH, DAH]"
    using bonus_at_element_completion [OF squeezed_dit_released_reachable, of 30]
    by (simp add: squeezed_dit_released_def default_cfg_def get_combo_now_def)
  moreover
  have "\<exists>r'. tick squeezed_mode_A 30 = Inr r' \<and> queue r' = [DAH]"
    using bonus_at_element_completion [OF squeezed_mode_A_reachable, of 30]
    by (simp add: squeezed_mode_A_def squeezed_dit_released_def default_cfg_def
          get_combo_now_def)
  ultimately show ?thesis
    using squeezed_dit_released_reachable squeezed_mode_A_reachable by (intro conjI)
qed

section \<open>Without memory\<close>

text \<open>
  Claim C10. With \<^verbatim>\<open>memory_mode == NONE\<close>, in every runtime reached from a fresh one by
  calls of \<^verbatim>\<open>tick\<close> and \<^verbatim>\<open>update_paddles\<close> both latches are false; so the only
  elements that enter the queue are Mode B bonus elements: \<^verbatim>\<open>update_paddles\<close> leaves
  the queue as it is, a completing tick appends the bonus element if there is one, and
  every other tick leaves the queue as it is or removes its head.
\<close>

theorem memory_none_never_latches:
  assumes "memory_mode c = MEM_NONE" and "run (KeyerRuntime_init c) evs = Inr r"
  shows "\<not> dot_requested r \<and> \<not> dah_requested r
       \<and> (\<forall>dit dah. queue (update_paddles r dit dah) = queue r)
       \<and> (\<forall>dt r'. tick r dt = Inr r' \<longrightarrow>
            queue r' =
              (if (state r = SEND_DIT \<or> state r = SEND_DAH)
                  \<and> \<not> current_element_elapsed_ms r + dt < current_element_total_ms r
               then queue r @ appended (bonus_element r)
               else if state r = INTER_ELEMENT_GAP
                       \<and> \<not> gap_elapsed_ms r + dt < gap_total_ms r
               then tl (queue r)
               else queue r))"
proof -
  from assms(2) have i: "keyer_inv c r" by (rule inv_reachable)
  with assms(1) have l: "\<not> dot_requested r" "\<not> dah_requested r"
    unfolding keyer_inv_def by simp_all
  have "queue r' =
              (if (state r = SEND_DIT \<or> state r = SEND_DAH)
                  \<and> \<not> current_element_elapsed_ms r + dt < current_element_total_ms r
               then queue r @ appended (bonus_element r)
               else if state r = INTER_ELEMENT_GAP
                       \<and> \<not> gap_elapsed_ms r + dt < gap_total_ms r
               then tl (queue r)
               else queue r)"
    if t: "tick r dt = Inr r'" for dt r'
    using tick_queue [OF t] l by simp
  moreover have "queue (update_paddles r dit dah) = queue r" for dit dah
    by (simp add: update_paddles_def Let_def)
  ultimately show ?thesis using l by blast
qed

theorem memory_none_never_latches_witness:
  "memory_mode (default_cfg\<lparr>memory_mode := MEM_NONE\<rparr>) = MEM_NONE
   \<and> run (KeyerRuntime_init (default_cfg\<lparr>memory_mode := MEM_NONE\<rparr>))
     [Paddles True False, Tick 1, Paddles True True, Tick 30, Paddles False False]
     = Inr squeezed_no_memory
   \<and> \<not> dot_requested squeezed_no_memory \<and> \<not> dah_requested squeezed_no_memory
   \<and> (\<exists>r'. tick squeezed_no_memory 30 = Inr r' \<and> queue r' = [DAH])"
proof -
  have m: "memory_mode (default_cfg\<lparr>memory_mode := MEM_NONE\<rparr>) = MEM_NONE" by simp
  note th = memory_none_never_latches [OF m squeezed_no_memory_reachable]
  have f: "state squeezed_no_memory = SEND_DIT \<or> state squeezed_no_memory = SEND_DAH"
    "wpm (cfg squeezed_no_memory) \<noteq> 0"
    "\<not> current_element_elapsed_ms squeezed_no_memory + 30
        < current_element_total_ms squeezed_no_memory"
    by (simp_all add: squeezed_no_memory_def squeezed_dit_released_def default_cfg_def)
  from tick_completion [OF f] obtain r1 where t: "tick squeezed_no_memory 30 = Inr r1"
    by simp
  from th t have "queue r1 =
      (if (state squeezed_no_memory = SEND_DIT \<or> state squeezed_no_memory = SEND_DAH)
                  \<and> \<not> current_element_elapsed_ms squeezed_no_memory + 30
                       < current_element_total_ms squeezed_no_memory
               then queue squeezed_no_memory @ appended (bonus_element squeezed_no_memory)
               else if state squeezed_no_memory = INTER_ELEMENT_GAP
                       \<and> \<not> gap_elapsed_ms squeezed_no_memory + 30
                            < gap_total_ms squeezed_no_memory
               then tl (queue squeezed_no_memory)
               else queue squeezed_no_memory)"
    by blast
  then have "queue r1 = [DAH]"
    by (simp add: squeezed_no_memory_def squeezed_dit_released_def default_cfg_def
          bonus_element_def get_combo_now_def Let_def)
  with t have "\<exists>r'. tick squeezed_no_memory 30 = Inr r' \<and> queue r' = [DAH]" by blast
  with th m squeezed_no_memory_reachable show ?thesis by blast
qed

section \<open>At rest and at the end of a gap\<close>

text \<open>
  Claim C6. For every tick taken in state IDLE (with a nonzero \<^verbatim>\<open>wpm\<close>, without which
  starting an element raises): combo DIT_ONLY and combo BOTH start a DIT element, combo
  DAH_ONLY starts a DAH element, and combo NONE leaves the whole runtime unchanged, for
  any number of ticks; a runtime at rest that was reached from a fresh one has an empty
  queue.
\<close>

theorem idle_tick:
  "(state r = IDLE \<and> wpm (cfg r) \<noteq> 0 \<longrightarrow>
      (get_combo_now r = DIT_ONLY \<or> get_combo_now r = BOTH \<longrightarrow>
         tick r dt = Inr (r\<lparr>current_element := Some DIT,
            current_element_total_ms := 1200 / real_of_int (wpm (cfg r)),
            state := SEND_DIT,
            current_element_elapsed_ms := 0, element_progress_pct := 0,
            squeeze_seen_this_element := False\<rparr>))
      \<and> (get_combo_now r = DAH_ONLY \<longrightarrow>
         tick r dt = Inr (r\<lparr>current_element := Some DAH,
            current_element_total_ms := 3 * (1200 / real_of_int (wpm (cfg r))),
            state := SEND_DAH,
            current_element_elapsed_ms := 0, element_progress_pct := 0,
            squeeze_seen_this_element := False\<rparr>)))
   \<and> (state r = IDLE \<and> get_combo_now r = NONE \<longrightarrow>
        tick r dt = Inr r \<and> run r (map Tick dts) = Inr r)
   \<and> (run (KeyerRuntime_init c) evs = Inr r \<and> state r = IDLE \<longrightarrow> queue r = [])"
proof -
  have "queue r = []" if "run (KeyerRuntime_init c) evs = Inr r" "state r = IDLE"
    using inv_reachable [OF that(1)] that(2) unfolding keyer_inv_def by simp
  moreover have "tick r dt = Inr r \<and> run r (map Tick dts) = Inr r"
    if "state r = IDLE" "get_combo_now r = NONE"
    using that by (simp add: tick_IDLE run_idle_none)
  moreover have "tick r dt = Inr (r\<lparr>current_element := Some DIT,
            current_element_total_ms := 1200 / real_of_int (wpm (cfg r)),
            state := SEND_DIT,
            current_element_elapsed_ms := 0, element_progress_pct := 0,
            squeeze_seen_this_element := False\<rparr>)"
    if "state r = IDLE" "wpm (cfg r) \<noteq> 0" "get_combo_now r = DIT_ONLY \<or> get_combo_now r = BOTH"
    using that by (simp add: tick_IDLE start_element_Inr)
  moreover have "tick r dt = Inr (r\<lparr>current_element := Some DAH,
            current_element_total_ms := 3 * (1200 / real_of_int (wpm (cfg r))),
            state := SEND_DAH,
            current_element_elapsed_ms := 0, element_progress_pct := 0,
            squeeze_seen_this_element := False\<rparr>)"
    if "state r = IDLE" "wpm (cfg r) \<noteq> 0" "get_combo_now r = DAH_ONLY"
    using that by (simp add: tick_IDLE start_element_Inr)
  ultimately show ?thesis by blast
qed

theorem idle_tick_witness:
  "state (KeyerRuntime_init default_cfg) = IDLE
   \<and> get_combo_now (KeyerRuntime_init default_cfg) = NONE
   \<and> run (KeyerRuntime_init default_cfg) (map Tick [1, 5, 10]) = Inr (KeyerRuntime_init default_cfg)
   \<and> queue (KeyerRuntime_init default_cfg) = []
   \<and> map_sum id state (tick (update_paddles (KeyerRuntime_init default_cfg) True True) 1)
       = Inr SEND_DIT
   \<and> map_sum id current_element
        (tick (update_paddles (KeyerRuntime_init default_cfg) True True) 1) = Inr (Some DIT)
   \<and> map_sum id state (tick (update_paddles (KeyerRuntime_init default_cfg) False True) 1)
       = Inr SEND_DAH"
proof -
  let ?i = "KeyerRuntime_init default_cfg"
  let ?b = "update_paddles ?i True True"
  let ?d = "update_paddles ?i False True"
  have i: "state ?i = IDLE" "get_combo_now ?i = NONE" "queue ?i = []"
    by (simp_all add: KeyerRuntime_init_def get_combo_now_def)
  have b: "state ?b = IDLE" "wpm (cfg ?b) \<noteq> 0" "get_combo_now ?b = BOTH"
    by (simp_all add: KeyerRuntime_init_def default_cfg_def update_paddles_def
          get_combo_now_def Let_def)
  have d: "state ?d = IDLE" "wpm (cfg ?d) \<noteq> 0" "get_combo_now ?d = DAH_ONLY"
    by (simp_all add: KeyerRuntime_init_def default_cfg_def update_paddles_def
          get_combo_now_def Let_def)
  have "run ?i (map Tick [1, 5, 10]) = Inr ?i"
    using idle_tick [of ?i 1 "[1, 5, 10]" default_cfg "[]"] i by blast
  moreover have "map_sum id state (tick ?b 1) = Inr SEND_DIT"
    "map_sum id current_element (tick ?b 1) = Inr (Some DIT)"
    using idle_tick [of ?b 1] b by simp_all
  moreover have "map_sum id state (tick ?d 1) = Inr SEND_DAH"
    using idle_tick [of ?d 1] d by simp
  ultimately show ?thesis using i by (intro conjI)
qed

text \<open>
  Claim C2. In every runtime reached from a fresh one, a tick in INTER_ELEMENT_GAP that
  brings \<^verbatim>\<open>gap_elapsed\<close> to \<^verbatim>\<open>gap_total\<close> or beyond returns, and: if the queue is not
  empty its head is removed and started as the next element, whatever the paddles are; if
  it is empty the next element is DIT for combo DIT_ONLY, DAH for DAH_ONLY, the element
  opposite to the one just completed for BOTH, and for NONE there is none and the state
  becomes IDLE.
\<close>

theorem gap_end_next_element:
  assumes "run (KeyerRuntime_init c) evs = Inr r"
    and "state r = INTER_ELEMENT_GAP"
    and "\<not> gap_elapsed_ms r + dt < gap_total_ms r"
  shows "\<exists>e0 r'. current_element r = Some e0 \<and> tick r dt = Inr r' \<and>
     (case (case queue r of
              e # q \<Rightarrow> Some e
            | [] \<Rightarrow> (case get_combo_now r of
                         DIT_ONLY \<Rightarrow> Some DIT
                       | DAH_ONLY \<Rightarrow> Some DAH
                       | BOTH \<Rightarrow> Some (opposite e0)
                       | NONE \<Rightarrow> None))
      of Some e \<Rightarrow>
           current_element r' = Some e
           \<and> state r' = (if e = DIT then SEND_DIT else SEND_DAH)
           \<and> current_element_elapsed_ms r' = 0
           \<and> current_element_total_ms r' =
                (if e = DIT then 1200 / real_of_int (wpm c)
                 else 3 * (1200 / real_of_int (wpm c)))
           \<and> queue r' = tl (queue r)
       | None \<Rightarrow> state r' = IDLE \<and> current_element r' = None \<and> queue r' = [])"
proof -
  note g = assms(2) and ne = assms(3)
  from assms(1) have i: "keyer_inv c r" by (rule inv_reachable)
  with g have cr: "cfg r = c" and nz: "wpm c \<noteq> 0" and cn: "current_element r \<noteq> None"
    unfolding keyer_inv_def by simp_all
  from cn obtain e0 where ce: "current_element r = Some e0" by blast
  have op: "(if current_element r = Some DIT then DAH else DIT) = opposite e0"
    using ce by (cases e0) simp_all
  show ?thesis
  proof (cases "queue r")
    case (Cons e q)
    let ?r1 = "r\<lparr>gap_elapsed_ms := gap_elapsed_ms r + dt, queue := q\<rparr>"
    from cr nz have "wpm (cfg ?r1) \<noteq> 0" by simp
    from start_element_fields [OF this, of e] obtain r' where
      "start_element ?r1 e = Inr r'" "current_element r' = Some e"
      "state r' = (if e = DIT then SEND_DIT else SEND_DAH)"
      "current_element_elapsed_ms r' = 0"
      "current_element_total_ms r' =
          (if e = DIT then 1200 / real_of_int (wpm (cfg ?r1))
           else 3 * (1200 / real_of_int (wpm (cfg ?r1))))"
      "queue r' = queue ?r1"
      by blast
    with ce cr Cons show ?thesis
      by (intro exI [of _ e0] exI [of _ r']) (simp add: tick_GAP_queue [OF g ne Cons])
  next
    case Nil
    let ?r1 = "r\<lparr>gap_elapsed_ms := gap_elapsed_ms r + dt\<rparr>"
    from cr nz have w: "wpm (cfg ?r1) \<noteq> 0" by simp
    note tk = tick_GAP_empty [OF g ne Nil]
    have started: "\<exists>r'. tick r dt = Inr r' \<and> current_element r' = Some e
           \<and> state r' = (if e = DIT then SEND_DIT else SEND_DAH)
           \<and> current_element_elapsed_ms r' = 0
           \<and> current_element_total_ms r' =
                (if e = DIT then 1200 / real_of_int (wpm c)
                 else 3 * (1200 / real_of_int (wpm c)))
           \<and> queue r' = tl (queue r)"
      if "tick r dt = start_element ?r1 e" for e
      using start_element_fields [OF w, of e] cr Nil unfolding that by (cases e) simp_all
    show ?thesis
    proof (cases "get_combo_now r")
      case DIT_ONLY
      with tk have "tick r dt = start_element ?r1 DIT" by simp
      from started [OF this] ce Nil DIT_ONLY show ?thesis by simp
    next
      case DAH_ONLY
      with tk have "tick r dt = start_element ?r1 DAH" by simp
      from started [OF this] ce Nil DAH_ONLY show ?thesis by simp
    next
      case BOTH
      with tk op have "tick r dt = start_element ?r1 (opposite e0)" by simp
      from started [OF this] ce Nil BOTH show ?thesis by simp
    next
      case NONE
      with tk ce Nil show ?thesis by simp
    qed
  qed
qed

theorem gap_end_next_element_witness:
  "run (KeyerRuntime_init default_cfg)
     [Paddles True False, Tick 1, Paddles True True, Tick 30, Paddles False False, Tick 30]
     = Inr gap_with_queue
   \<and> state gap_with_queue = INTER_ELEMENT_GAP
   \<and> \<not> gap_elapsed_ms gap_with_queue + 60 < gap_total_ms gap_with_queue
   \<and> (\<exists>r'. tick gap_with_queue 60 = Inr r' \<and> current_element r' = Some DAH
          \<and> state r' = SEND_DAH \<and> current_element_elapsed_ms r' = 0
          \<and> current_element_total_ms r' = 180 \<and> queue r' = [DAH])"
proof -
  have f: "state gap_with_queue = INTER_ELEMENT_GAP"
    "\<not> gap_elapsed_ms gap_with_queue + 60 < gap_total_ms gap_with_queue"
    by (simp_all add: gap_with_queue_def squeezed_dit_released_def)
  have "\<exists>r'. tick gap_with_queue 60 = Inr r' \<and> current_element r' = Some DAH
          \<and> state r' = SEND_DAH \<and> current_element_elapsed_ms r' = 0
          \<and> current_element_total_ms r' = 180 \<and> queue r' = [DAH]"
    using gap_end_next_element [OF gap_with_queue_reachable f]
    by (simp add: gap_with_queue_def squeezed_dit_released_def default_cfg_def)
  with gap_with_queue_reachable f show ?thesis by (intro conjI)
qed

text \<open>
  Claim C9, as the specification states it, includes \<^verbatim>\<open>last_valid_combo\<close> among the
  fields that equal those of a fresh runtime after the keyer has emptied. Under SNAPSHOT
  one dit keyed and released ends with \<^verbatim>\<open>last_valid_combo = DIT_ONLY\<close>, where a fresh
  runtime has NONE.
\<close>

theorem natural_empty_counterexample:
  "run (KeyerRuntime_init (default_cfg\<lparr>squeeze_mode := SNAPSHOT\<rparr>))
     [Paddles True False, Tick 1, Paddles False False, Tick 60]
     = Inr gap_nothing_left_snapshot
   \<and> state gap_nothing_left_snapshot = INTER_ELEMENT_GAP
   \<and> queue gap_nothing_left_snapshot = []
   \<and> get_combo_now gap_nothing_left_snapshot = NONE
   \<and> tick gap_nothing_left_snapshot 60
       = Inr ((KeyerRuntime_init (default_cfg\<lparr>squeeze_mode := SNAPSHOT\<rparr>))
                \<lparr>last_valid_combo := DIT_ONLY\<rparr>)
   \<and> last_valid_combo ((KeyerRuntime_init (default_cfg\<lparr>squeeze_mode := SNAPSHOT\<rparr>))
                \<lparr>last_valid_combo := DIT_ONLY\<rparr>)
       \<noteq> last_valid_combo (KeyerRuntime_init (default_cfg\<lparr>squeeze_mode := SNAPSHOT\<rparr>))"
  using gap_nothing_left_snapshot_reachable
  by (simp add: eval_defs gap_nothing_left_snapshot_def gap_nothing_left_def)

text \<open>
  Claim C9, amended. When a gap ends with an empty queue and combo NONE, in a runtime
  reached from a fresh one, the tick returns a runtime equal to a freshly constructed one
  in every field other than \<^verbatim>\<open>last_valid_combo\<close>, which \<^verbatim>\<open>tick\<close> never writes; under
  LIVE that field mirrors the combo, so the runtime is the fresh runtime itself.
\<close>

theorem natural_empty_resets_runtime:
  assumes "run (KeyerRuntime_init c) evs = Inr r"
    and "state r = INTER_ELEMENT_GAP"
    and "\<not> gap_elapsed_ms r + dt < gap_total_ms r"
    and "queue r = []"
    and "get_combo_now r = NONE"
  shows "tick r dt = Inr ((KeyerRuntime_init c)\<lparr>last_valid_combo := last_valid_combo r\<rparr>)
       \<and> (squeeze_mode c = LIVE \<longrightarrow> tick r dt = Inr (KeyerRuntime_init c))"
proof -
  note g = assms(2) and ne = assms(3) and q = assms(4) and n = assms(5)
  from assms(1) have i: "keyer_inv c r" by (rule inv_reachable)
  with g have cr: "cfg r = c" and l: "\<not> dot_requested r" "\<not> dah_requested r"
    and lv: "squeeze_mode c = LIVE \<longrightarrow> last_valid_combo r = get_combo_now r"
    unfolding keyer_inv_def by simp_all
  from n have p: "\<not> dit_pressed r" "\<not> dah_pressed r"
    unfolding get_combo_now_def by (simp_all split: if_splits)
  have eq: "r\<lparr>gap_elapsed_ms := gap_elapsed_ms r + dt\<rparr>
                 \<lparr>state := IDLE, current_element := None,
                  current_element_total_ms := 0, current_element_elapsed_ms := 0,
                  gap_total_ms := 0, gap_elapsed_ms := 0, element_progress_pct := 0,
                  squeeze_seen_this_element := False, queue := []\<rparr>
        = (KeyerRuntime_init c)\<lparr>last_valid_combo := last_valid_combo r\<rparr>"
    by (rule KeyerRuntime.equality) (simp_all add: KeyerRuntime_init_def cr l p)
  have t: "tick r dt = Inr ((KeyerRuntime_init c)\<lparr>last_valid_combo := last_valid_combo r\<rparr>)"
    unfolding tick_GAP_empty [OF g ne q] using n eq by simp
  have "(KeyerRuntime_init c)\<lparr>last_valid_combo := NONE\<rparr> = KeyerRuntime_init c"
    by (simp add: KeyerRuntime_init_def)
  with t lv n show ?thesis by simp
qed

theorem natural_empty_resets_runtime_witness:
  "run (KeyerRuntime_init default_cfg)
     [Paddles True False, Tick 1, Paddles False False, Tick 60]
     = Inr gap_nothing_left
   \<and> state gap_nothing_left = INTER_ELEMENT_GAP
   \<and> \<not> gap_elapsed_ms gap_nothing_left + 60 < gap_total_ms gap_nothing_left
   \<and> queue gap_nothing_left = []
   \<and> get_combo_now gap_nothing_left = NONE
   \<and> squeeze_mode default_cfg = LIVE
   \<and> tick gap_nothing_left 60 = Inr (KeyerRuntime_init default_cfg)"
proof -
  have f: "state gap_nothing_left = INTER_ELEMENT_GAP"
    "\<not> gap_elapsed_ms gap_nothing_left + 60 < gap_total_ms gap_nothing_left"
    "queue gap_nothing_left = []"
    "get_combo_now gap_nothing_left = NONE"
    by (simp_all add: gap_nothing_left_def get_combo_now_def)
  have s: "squeeze_mode default_cfg = LIVE" by (simp add: default_cfg_def)
  from natural_empty_resets_runtime [OF gap_nothing_left_reachable f] s
  have "tick gap_nothing_left 60 = Inr (KeyerRuntime_init default_cfg)" by blast
  with gap_nothing_left_reachable f s show ?thesis by (intro conjI)
qed

end
